theory Spec2Isabelle
  imports Complex_Main
begin

section \<open>Gradient norms of a module: \<open>pytorch_lightning/utilities/grads.py\<close>\<close>

text \<open>
  The file holds one function:
  \<^verbatim>\<open>
  def grad_norm(module, norm_type):
      norm_type = float(norm_type)
      norms = {
          f"grad_{norm_type}_norm_{name}": p.grad.data.norm(norm_type).item()
          for name, p in module.named_parameters()
          if p.grad is not None
      }
      if norms:
          total_norm = torch.tensor(list(norms.values())).norm(norm_type).item()
          norms[f"grad_{norm_type}_norm_total"] = total_norm
          norms = {k: round(v, 4) for k, v in norms.items()}
      return norms
  \<close>
  It calls into the Python runtime (\<open>float\<close>, \<open>round\<close>, the formatting of a float inside
  an f-string) and into the tensor library (\<open>Tensor.norm\<close>, \<open>Tensor.item\<close>,
  \<open>torch.tensor\<close>). Those operations are not part of the file. The model takes them as a
  record of functions over a type \<open>'f\<close> of floating-point values, so that every general
  theorem below holds whatever the floating-point arithmetic does. A concrete reading of
  these operations, \<open>py_env\<close>, is given further down for the scenarios.
\<close>

subsection \<open>The operations the function calls\<close>

record 'f pylib =
  float_of_int :: "int \<Rightarrow> 'f option"
    \<comment> \<open>\<open>float(i)\<close> for an \<open>int\<close>; \<open>None\<close> when Python raises \<open>OverflowError\<close>\<close>
  float_of_str :: "string \<Rightarrow> 'f option"
    \<comment> \<open>\<open>float(s)\<close> for a \<open>str\<close>; \<open>None\<close> when Python raises \<open>ValueError\<close>\<close>
  format_float :: "'f \<Rightarrow> string"
    \<comment> \<open>the text an f-string puts for \<open>{x}\<close> when \<open>x\<close> is a float\<close>
  tensor_norm :: "'f \<Rightarrow> 'f list \<Rightarrow> 'f"
    \<comment> \<open>\<open>t.norm(p).item()\<close>, the tensor \<open>t\<close> given by its flattened values\<close>
  round_ndigits :: "'f \<Rightarrow> nat \<Rightarrow> 'f"
    \<comment> \<open>\<open>round(v, n)\<close> on a float\<close>

subsection \<open>Data\<close>

text \<open>
  A parameter is a tensor with an optional gradient tensor (\<open>p.grad\<close> is \<open>None\<close> or a
  tensor). A tensor is represented by the list of its values. What
  \<open>module.named_parameters()\<close> iterates over is a list of named parameters, in the
  module's order. The tensor library yields each name once.
\<close>

record 'f parameter =
  data :: "'f list"
  grad :: "'f list option"

type_synonym 'f named_parameters = "(string \<times> 'f parameter) list"

text \<open>The argument \<open>norm_type: Union[float, int, str]\<close>.\<close>

datatype 'f norm_arg = NFloat 'f | NInt int | NStr string

text \<open>
  The exceptions \<open>float(norm_type)\<close> can raise on such an argument. The specification
  calls the \<open>ValueError\<close> of an unparsable string \<open>InvalidNormOrder\<close>.
\<close>

datatype error = ValueError | OverflowError

text \<open>
  A Python \<open>dict\<close> keeps its keys in insertion order, and storing under a key that is
  already present replaces the value in place. The report is such a dictionary from
  labels to floats.
\<close>

type_synonym 'f report = "(string \<times> 'f) list"

fun dict_set :: "'k \<Rightarrow> 'v \<Rightarrow> ('k \<times> 'v) list \<Rightarrow> ('k \<times> 'v) list" where
  "dict_set k v [] = [(k, v)]"
| "dict_set k v ((k', v') # d) =
     (if k' = k then (k, v) # d else (k', v') # dict_set k v d)"

definition dict_get :: "('k \<times> 'v) list \<Rightarrow> 'k \<Rightarrow> 'v option" where
  "dict_get d k = map_of d k"

definition dict_values :: "('k \<times> 'v) list \<Rightarrow> 'v list" where
  "dict_values d = map snd d"

definition dict_keys :: "('k \<times> 'v) list \<Rightarrow> 'k list" where
  "dict_keys d = map fst d"

subsection \<open>The function\<close>

text \<open>Line 37, \<open>norm_type = float(norm_type)\<close>.\<close>

fun py_float :: "'f pylib \<Rightarrow> 'f norm_arg \<Rightarrow> error + 'f" where
  "py_float L (NFloat x) = Inr x"
| "py_float L (NInt i) =
     (case float_of_int L i of None \<Rightarrow> Inl OverflowError | Some x \<Rightarrow> Inr x)"
| "py_float L (NStr s) =
     (case float_of_str L s of None \<Rightarrow> Inl ValueError | Some x \<Rightarrow> Inr x)"

text \<open>The two f-strings of lines 39 and 45.\<close>

definition label :: "'f pylib \<Rightarrow> 'f \<Rightarrow> string \<Rightarrow> string" where
  "label L p name = ''grad_'' @ format_float L p @ ''_norm_'' @ name"

definition total_label :: "'f pylib \<Rightarrow> 'f \<Rightarrow> string" where
  "total_label L p = ''grad_'' @ format_float L p @ ''_norm_total''"

text \<open>
  Lines 38 to 42, the dictionary comprehension: the parameters are visited in order, one
  without a gradient is skipped, and the norm of the gradient is stored under the
  parameter's label. The last argument is the dictionary built so far.
\<close>

fun param_norms :: "'f pylib \<Rightarrow> 'f \<Rightarrow> 'f named_parameters \<Rightarrow> 'f report \<Rightarrow> 'f report" where
  "param_norms L p [] norms = norms"
| "param_norms L p ((name, q) # rest) norms =
     (case grad q of
        None \<Rightarrow> param_norms L p rest norms
      | Some g \<Rightarrow> param_norms L p rest (dict_set (label L p name) (tensor_norm L p g) norms))"

text \<open>
  Lines 44 and 45: the norm of the tensor made of the values of the dictionary, stored
  under the total label.
\<close>

definition with_total :: "'f pylib \<Rightarrow> 'f \<Rightarrow> 'f report \<Rightarrow> 'f report" where
  "with_total L p norms =
     (let total_norm = tensor_norm L p (dict_values norms)
      in dict_set (total_label L p) total_norm norms)"

text \<open>Line 46, the second comprehension, which builds a new dictionary entry by entry.\<close>

fun rounded :: "'f pylib \<Rightarrow> 'f report \<Rightarrow> 'f report \<Rightarrow> 'f report" where
  "rounded L [] acc = acc"
| "rounded L ((k, v) # items) acc = rounded L items (dict_set k (round_ndigits L v 4) acc)"

definition grad_norm :: "'f pylib \<Rightarrow> 'f named_parameters \<Rightarrow> 'f norm_arg \<Rightarrow> error + 'f report" where
  "grad_norm L module' norm_type =
     (case py_float L norm_type of
        Inl e \<Rightarrow> Inl e
      | Inr p \<Rightarrow>
          (let norms = param_norms L p module' []
           in if norms \<noteq> [] then Inr (rounded L (with_total L p norms) [])
              else Inr norms))"

text \<open>
  A call next to the state of the module's parameters, for statements about several
  calls: the report and the state the call leaves. The function assigns to no attribute
  of the module, of a parameter or of a gradient, and this summary returns the state as it
  was. That the function, run statement by statement on a store of tensors, leaves every
  tensor as it was is a property of \<open>grad_norm_exec\<close> below, and this summary is its
  abstraction (lemma \<open>grad_norm_call_exec\<close>).
\<close>

definition grad_norm_call ::
  "'f pylib \<Rightarrow> 'f norm_arg \<Rightarrow> 'f named_parameters \<Rightarrow> (error + 'f report) \<times> 'f named_parameters" where
  "grad_norm_call L norm_type st = (grad_norm L st norm_type, st)"

subsection \<open>The function on a store of tensors\<close>

text \<open>
  For the effect of a call on the tensors, the function is read once more over a store.
  A tensor is an object at an address. The store gives the values of each tensor and its
  \<open>.grad\<close> attribute (\<open>None\<close> or the address of the gradient tensor); \<open>next_free\<close> is
  the first address not in use. A module is the list of the names and addresses of its
  parameters, which \<open>named_parameters()\<close> iterates over.
\<close>

type_synonym addr = nat

record 'f heap =
  cells :: "addr \<Rightarrow> 'f list"
  grad_attr :: "addr \<Rightarrow> addr option"
  next_free :: addr

text \<open>
  \<open>torch.tensor(values)\<close>, and the result of \<open>norm\<close>: a new tensor at the first free
  address, without a gradient.
\<close>

definition new_tensor :: "'f list \<Rightarrow> 'f heap \<Rightarrow> addr \<times> 'f heap" where
  "new_tensor vs h =
     (next_free h,
      h\<lparr>cells := (cells h)(next_free h := vs),
        grad_attr := (grad_attr h)(next_free h := None),
        next_free := Suc (next_free h)\<rparr>)"

text \<open>
  \<open>t.data.norm(norm_type).item()\<close> for the tensor at address \<open>a\<close>: \<open>.data\<close> is the
  same values, \<open>norm\<close> puts its result in a new tensor with one value, and \<open>item\<close>
  reads that value.
\<close>

definition norm_item :: "'f pylib \<Rightarrow> 'f \<Rightarrow> addr \<Rightarrow> 'f heap \<Rightarrow> 'f \<times> 'f heap" where
  "norm_item L p a h =
     (let x = tensor_norm L p (cells h a);
          (r, h') = new_tensor [x] h
      in (x, h'))"

text \<open>Lines 38 to 42 on the store; the dictionary is a local value.\<close>

fun param_norms_exec ::
  "'f pylib \<Rightarrow> 'f \<Rightarrow> (string \<times> addr) list \<Rightarrow> 'f report \<Rightarrow> 'f heap \<Rightarrow> 'f report \<times> 'f heap" where
  "param_norms_exec L p [] norms h = (norms, h)"
| "param_norms_exec L p ((name, a) # rest) norms h =
     (case grad_attr h a of
        None \<Rightarrow> param_norms_exec L p rest norms h
      | Some g \<Rightarrow>
          (let (x, h') = norm_item L p g h
           in param_norms_exec L p rest (dict_set (label L p name) x norms) h'))"

text \<open>
  The whole function on the store. Line 44 builds a tensor from the values of the
  dictionary and takes its norm; lines 45 and 46 work on the dictionaries only.
\<close>

definition grad_norm_exec ::
  "'f pylib \<Rightarrow> (string \<times> addr) list \<Rightarrow> 'f norm_arg \<Rightarrow> 'f heap \<Rightarrow> (error + 'f report) \<times> 'f heap" where
  "grad_norm_exec L module' norm_type h =
     (case py_float L norm_type of
        Inl e \<Rightarrow> (Inl e, h)
      | Inr p \<Rightarrow>
          (let (norms, h1) = param_norms_exec L p module' [] h
           in if norms \<noteq> [] then
                (let (t, h2) = new_tensor (dict_values norms) h1;
                     (total_norm, h3) = norm_item L p t h2;
                     norms' = dict_set (total_label L p) total_norm norms
                 in (Inr (rounded L norms' []), h3))
              else (Inr norms, h1)))"

text \<open>
  What a store holds for a module: the named parameters of the first model, each with
  the values of its tensor and of its gradient.
\<close>

definition view :: "'f heap \<Rightarrow> (string \<times> addr) list \<Rightarrow> 'f named_parameters" where
  "view h m =
     map (\<lambda>(name, a). (name, \<lparr>data = cells h a, grad = map_option (cells h) (grad_attr h a)\<rparr>)) m"

text \<open>
  A module of the store: its parameters and their gradients are at addresses in use.
\<close>

definition allocated :: "'f heap \<Rightarrow> (string \<times> addr) list \<Rightarrow> bool" where
  "allocated h m =
     list_all (\<lambda>(name, a). a < next_free h \<and>
                 (case grad_attr h a of None \<Rightarrow> True | Some g \<Rightarrow> g < next_free h)) m"

text \<open>
  The store \<open>h'\<close> keeps the store \<open>h\<close>: every tensor of \<open>h\<close> has in \<open>h'\<close> the values
  and the gradient attribute it has in \<open>h\<close>.
\<close>

definition keeps :: "'f heap \<Rightarrow> 'f heap \<Rightarrow> bool" where
  "keeps h h' =
     (next_free h \<le> next_free h' \<and>
      (\<forall>a. a < next_free h \<longrightarrow> cells h' a = cells h a \<and> grad_attr h' a = grad_attr h a))"

subsection \<open>A concrete reading of the operations\<close>

text \<open>
  A Python float is an IEEE double: a finite value, one of the two infinities, or NaN.
  \<open>py_env\<close> reads the operations over such values with exact real arithmetic on the
  finite ones: it does not round to 53 bits (nor to the 24 bits of the single-precision
  tensor that \<open>torch.tensor\<close> builds from a list of floats), a finite norm never
  overflows, and the negative zero is not told apart from zero. Its values are used for
  the scenarios, the witnesses and the counterexamples, at inputs where this arithmetic
  is exact. Which arguments \<open>float\<close> accepts does not depend on the arithmetic, and
  \<open>py_env\<close> gives that for every integer and every string of code points below 256.
\<close>

datatype pyfloat = Fin real | PInf | NInf | NaN

subsubsection \<open>\<open>float(i)\<close> and \<open>float(s)\<close>\<close>

text \<open>
  The largest double is \<open>2^1024 - 2^971\<close>; a value from \<open>2^1024 - 2^970\<close> on rounds
  beyond it. \<open>float\<close> of such an \<open>int\<close> raises \<open>OverflowError\<close>, \<open>float\<close> of such a
  decimal string is an infinity. Below that, the value of the integer is kept as it is
  (Python rounds it to 53 bits); whether the conversion fails does not depend on that.
\<close>

definition overflow_threshold :: int where
  "overflow_threshold = 2 ^ 1024 - 2 ^ 970"

definition py_float_of_int :: "int \<Rightarrow> pyfloat option" where
  "py_float_of_int i =
     (if \<bar>i\<bar> < overflow_threshold then Some (Fin (of_int i)) else None)"

text \<open>
  \<open>float(s)\<close> on a string, read as the list of its code points, all below 256 (the
  digits of other scripts, which \<open>float\<close> accepts as well, are outside this reading).
  A whitespace code point outside ASCII (here \<open>0x85\<close> and \<open>0xA0\<close>) becomes a blank; an
  underscore must stand between two digits and is taken out; the ASCII whitespace around
  the text (blank, \<open>\t\<close>, \<open>\n\<close>, \<open>\v\<close>, \<open>\f\<close>, \<open>\r\<close>) is dropped; then an optional sign
  is followed by \<open>inf\<close>, \<open>infinity\<close> or \<open>nan\<close> in any letter case, or by a decimal number
  with an optional exponent.
\<close>

definition unicode_space :: "char \<Rightarrow> char" where
  "unicode_space c = (if c = CHR 0x85 \<or> c = CHR 0xA0 then CHR '' '' else c)"

definition is_space :: "char \<Rightarrow> bool" where
  "is_space c = (c \<in> set [CHR '' '', CHR 0x09, CHR 0x0A, CHR 0x0B, CHR 0x0C, CHR 0x0D])"

definition is_digit :: "char \<Rightarrow> bool" where
  "is_digit c = (c \<in> set ''0123456789'')"

definition digit_val :: "char \<Rightarrow> nat" where
  "digit_val c = of_char c - 48"

definition strip :: "string \<Rightarrow> string" where
  "strip s = rev (dropWhile is_space (rev (dropWhile is_space s)))"

fun underscores_ok :: "char \<Rightarrow> string \<Rightarrow> bool" where
  "underscores_ok prev [] = (prev \<noteq> CHR ''_'')"
| "underscores_ok prev (c # cs) =
     (if c = CHR ''_'' then is_digit prev \<and> underscores_ok c cs
      else if prev = CHR ''_'' then is_digit c \<and> underscores_ok c cs
      else underscores_ok c cs)"

definition lower :: "char \<Rightarrow> char" where
  "lower c =
     (if c \<in> set ''ABCDEFGHIJKLMNOPQRSTUVWXYZ'' then char_of (of_char c + (32::nat)) else c)"

definition nat_of_digits :: "string \<Rightarrow> nat" where
  "nat_of_digits ds = fold (\<lambda>c n. 10 * n + digit_val c) ds 0"

definition split_sign :: "string \<Rightarrow> bool \<times> string" where
  "split_sign s =
     (case s of
        [] \<Rightarrow> (False, [])
      | c # cs \<Rightarrow> if c = CHR ''-'' then (True, cs) else if c = CHR ''+'' then (False, cs)
                 else (False, s))"

text \<open>The exponent part: empty, or \<open>e\<close> or \<open>E\<close>, an optional sign and at least one digit.\<close>

definition parse_exponent :: "string \<Rightarrow> int option" where
  "parse_exponent s =
     (case s of
        [] \<Rightarrow> Some 0
      | c # cs \<Rightarrow>
          if c = CHR ''e'' \<or> c = CHR ''E'' then
            (let (neg, ds) = split_sign cs
             in if ds \<noteq> [] \<and> list_all is_digit ds
                then Some (if neg then - int (nat_of_digits ds) else int (nat_of_digits ds))
                else None)
          else None)"

definition scale10 :: "real \<Rightarrow> int \<Rightarrow> real" where
  "scale10 x e = (if 0 \<le> e then x * 10 ^ nat e else x / 10 ^ nat (- e))"

definition parse_number :: "string \<Rightarrow> real option" where
  "parse_number s =
     (let ip = takeWhile is_digit s;
          r1 = dropWhile is_digit s;
          (fp, r3) =
            (case r1 of
               [] \<Rightarrow> ([], [])
             | c # r2 \<Rightarrow>
                 if c = CHR ''.'' then (takeWhile is_digit r2, dropWhile is_digit r2)
                 else ([], r1))
      in if ip = [] \<and> fp = [] then None
         else (case parse_exponent r3 of
                 None \<Rightarrow> None
               | Some e \<Rightarrow>
                   Some (scale10 (real (nat_of_digits (ip @ fp))) (e - int (length fp)))))"

text \<open>
  The text that is parsed: \<open>None\<close> when an underscore is not between two digits.
\<close>

definition cleaned :: "string \<Rightarrow> string option" where
  "cleaned s =
     (let t = map unicode_space s in
      if underscores_ok (CHR 0x00) t then Some (strip (filter (\<lambda>c. c \<noteq> CHR ''_'') t))
      else None)"

text \<open>
  The value is the decimal value of the text, except where rounding to a double changes
  its kind: from \<open>overflow_threshold\<close> on it is an infinity, and up to \<open>2^-1075\<close>, half
  the smallest positive double, it is zero.
\<close>

definition py_float_of_str :: "string \<Rightarrow> pyfloat option" where
  "py_float_of_str s =
     (case cleaned s of
        None \<Rightarrow> None
      | Some u \<Rightarrow>
          (let (neg, body) = split_sign u;
               word = map lower body
           in if word = ''inf'' \<or> word = ''infinity'' then Some (if neg then NInf else PInf)
              else if word = ''nan'' then Some NaN
              else (case parse_number body of
                      None \<Rightarrow> None
                    | Some x \<Rightarrow>
                        if real_of_int overflow_threshold \<le> x
                        then Some (if neg then NInf else PInf)
                        else if x \<le> 1 / 2 ^ 1075 then Some (Fin 0)
                        else Some (Fin (if neg then - x else x)))))"

subsubsection \<open>A float inside an f-string\<close>

text \<open>
  \<open>f"{x}"\<close> is \<open>repr(x)\<close>: \<open>inf\<close>, \<open>-inf\<close>, \<open>nan\<close>, and for a finite value the shortest
  decimal digits that give the double back, with \<open>.0\<close> after a whole number. For a whole
  number below \<open>10^16\<close> that is the number's own digits, as written here. For the other
  finite values this reading writes the decimal expansion, cut after 17 places; Python
  searches for the shortest digits and changes to exponent notation from \<open>1e16\<close> on and
  below \<open>1e-4\<close>, which is not reproduced.
\<close>

definition digit_char :: "nat \<Rightarrow> char" where
  "digit_char d = char_of (48 + d)"

fun show_nat :: "nat \<Rightarrow> string" where
  "show_nat n = (if n < 10 then [digit_char n] else show_nat (n div 10) @ [digit_char (n mod 10)])"

declare show_nat.simps [simp del]

fun frac_digits :: "nat \<Rightarrow> real \<Rightarrow> string" where
  "frac_digits 0 x = []"
| "frac_digits (Suc k) x =
     (let d = nat \<lfloor>x * 10\<rfloor>; rest = x * 10 - real d
      in digit_char d # (if rest = 0 then [] else frac_digits k rest))"

definition py_repr :: "pyfloat \<Rightarrow> string" where
  "py_repr x =
     (case x of
        PInf \<Rightarrow> ''inf''
      | NInf \<Rightarrow> ''-inf''
      | NaN \<Rightarrow> ''nan''
      | Fin r \<Rightarrow>
          (if r < 0 then ''-'' else []) @ show_nat (nat \<lfloor>\<bar>r\<bar>\<rfloor>) @ ''.'' @
          (if \<bar>r\<bar> = of_int \<lfloor>\<bar>r\<bar>\<rfloor> then ''0'' else frac_digits 17 (\<bar>r\<bar> - of_int \<lfloor>\<bar>r\<bar>\<rfloor>)))"

subsubsection \<open>\<open>round(v, n)\<close>\<close>

text \<open>
  Python rounds a float to \<open>n\<close> decimal places from its exact value, a tie going to the
  even neighbour; an infinity and NaN are returned as they are.
\<close>

definition round_half_even :: "real \<Rightarrow> int" where
  "round_half_even x =
     (let f = \<lfloor>x\<rfloor>; d = x - of_int f
      in if d < 1 / 2 then f else if 1 / 2 < d then f + 1 else if even f then f else f + 1)"

definition py_round :: "pyfloat \<Rightarrow> nat \<Rightarrow> pyfloat" where
  "py_round x n =
     (case x of
        Fin r \<Rightarrow> Fin (of_int (round_half_even (r * 10 ^ n)) / 10 ^ n)
      | _ \<Rightarrow> x)"

subsubsection \<open>The norm of a tensor\<close>

text \<open>
  The tensor library's vector norm of order \<open>p\<close> over the flattened values: the largest
  absolute value for \<open>p = inf\<close>, the smallest for \<open>p = -inf\<close>, the number of non-zero
  values for \<open>p = 0\<close>, and \<open>(\<Sum> |x|^p)^(1/p)\<close> otherwise (the specification's glossary
  gives the last and the first). A NaN among the values makes the result NaN, except for
  \<open>p = 0\<close>, where it counts as a non-zero value. Two conventions are this reading's own
  and not the library's: the largest value of an empty tensor is taken to be \<open>0\<close> and the
  smallest \<open>inf\<close>, where the library raises an error, and the order NaN is taken to
  give NaN, whatever the library computes there.
\<close>

definition abs_vals :: "pyfloat list \<Rightarrow> real list" where
  "abs_vals xs = concat (map (\<lambda>x. case x of Fin r \<Rightarrow> [\<bar>r\<bar>] | _ \<Rightarrow> []) xs)"

definition has_inf :: "pyfloat list \<Rightarrow> bool" where
  "has_inf xs = (PInf \<in> set xs \<or> NInf \<in> set xs)"

definition norm_max :: "pyfloat list \<Rightarrow> pyfloat" where
  "norm_max xs =
     (if NaN \<in> set xs then NaN
      else if has_inf xs then PInf
      else Fin (fold max (abs_vals xs) 0))"

definition norm_min :: "pyfloat list \<Rightarrow> pyfloat" where
  "norm_min xs =
     (if NaN \<in> set xs then NaN
      else (case abs_vals xs of [] \<Rightarrow> PInf | a # as \<Rightarrow> Fin (fold min as a)))"

definition norm_count :: "pyfloat list \<Rightarrow> pyfloat" where
  "norm_count xs = Fin (real (length (filter (\<lambda>x. x \<noteq> Fin 0) xs)))"

definition norm_pow :: "real \<Rightarrow> pyfloat list \<Rightarrow> pyfloat" where
  "norm_pow r xs =
     (if NaN \<in> set xs then NaN
      else if 0 < r then
        (if has_inf xs then PInf
         else Fin ((\<Sum>a\<leftarrow>abs_vals xs. a powr r) powr (1 / r)))
      else
        (if 0 \<in> set (abs_vals xs) then Fin 0
         else if abs_vals xs = [] then PInf
         else Fin ((\<Sum>a\<leftarrow>abs_vals xs. a powr r) powr (1 / r))))"

definition py_norm :: "pyfloat \<Rightarrow> pyfloat list \<Rightarrow> pyfloat" where
  "py_norm p xs =
     (case p of
        PInf \<Rightarrow> norm_max xs
      | NInf \<Rightarrow> norm_min xs
      | NaN \<Rightarrow> NaN
      | Fin r \<Rightarrow> if r = 0 then norm_count xs else norm_pow r xs)"

definition py_env :: "pyfloat pylib" where
  "py_env = \<lparr> float_of_int = py_float_of_int, float_of_str = py_float_of_str,
              format_float = py_repr, tensor_norm = py_norm, round_ndigits = py_round \<rparr>"

subsection \<open>Vocabulary of the properties\<close>

text \<open>
  The gradient-bearing parameters of a module, in order, each with its gradient; and what
  a call can see of the gradients of a module state.
\<close>

fun grad_bearing :: "'f named_parameters \<Rightarrow> (string \<times> 'f list) list" where
  "grad_bearing [] = []"
| "grad_bearing ((name, q) # rest) =
     (case grad q of None \<Rightarrow> grad_bearing rest | Some g \<Rightarrow> (name, g) # grad_bearing rest)"

definition grads_of :: "'f named_parameters \<Rightarrow> (string \<times> 'f list option) list" where
  "grads_of st = map (\<lambda>(name, q). (name, grad q)) st"








text \<open>
  A store for the examples: the parameter \<open>w\<close> at address \<open>0\<close> with the values
  \<open>[1, 1]\<close>, and its gradient at address \<open>1\<close> with the values \<open>[3, -4]\<close>.
\<close>

definition example_store :: "pyfloat heap" where
  "example_store =
     \<lparr>cells = (\<lambda>a. [])(0 := [Fin 1, Fin 1], 1 := [Fin 3, Fin (- 4)]),
      grad_attr = (\<lambda>a. None)(0 := Some 1),
      next_free = 2\<rparr>"

section \<open>Properties\<close>

subsection \<open>Dictionaries\<close>

lemma dict_set_key_set: "fst ` set (dict_set k v d) = insert k (fst ` set d)"
proof (induction d)
  case Nil
  then show ?case by simp
next
  case (Cons a d)
  obtain k' v' where a: "a = (k', v')" by (cases a)
  show ?case
  proof (cases "k' = k")
    case True
    with a show ?thesis by simp
  next
    case False
    with a Cons.IH show ?thesis by (simp add: insert_commute)
  qed
qed

lemma dict_set_fresh: "k \<notin> fst ` set d \<Longrightarrow> dict_set k v d = d @ [(k, v)]"
  by (induction d) auto

lemma dict_set_keys_present: "k \<in> fst ` set d \<Longrightarrow> map fst (dict_set k v d) = map fst d"
proof (induction d)
  case Nil
  then show ?case by simp
next
  case (Cons a d)
  obtain k' v' where a: "a = (k', v')" by (cases a)
  show ?case
  proof (cases "k' = k")
    case True
    with a show ?thesis by simp
  next
    case False
    with a Cons.prems have "k \<in> fst ` set d" by simp
    with Cons.IH a False show ?thesis by simp
  qed
qed

lemma dict_set_not_Nil: "dict_set k v d \<noteq> []"
  by (cases d) (auto split: if_splits)

lemma dict_set_distinct: "distinct (map fst d) \<Longrightarrow> distinct (map fst (dict_set k v d))"
  by (cases "k \<in> fst ` set d") (simp_all add: dict_set_keys_present dict_set_fresh)

lemma dict_set_map_of: "map_of (dict_set k v d) = (map_of d)(k \<mapsto> v)"
  by (induction d) (auto simp: fun_eq_iff)

lemma dict_set_length:
  "length (dict_set k v d) = (if k \<in> fst ` set d then length d else Suc (length d))"
proof (cases "k \<in> fst ` set d")
  case True
  then have "length (map fst (dict_set k v d)) = length (map fst d)"
    by (simp only: dict_set_keys_present)
  with True show ?thesis by simp
next
  case False
  then show ?thesis by (simp add: dict_set_fresh)
qed

subsection \<open>The two comprehensions\<close>

lemma param_norms_distinct:
  "distinct (map fst acc) \<Longrightarrow> distinct (map fst (param_norms L p ps acc))"
proof (induction ps arbitrary: acc)
  case Nil
  then show ?case by simp
next
  case (Cons a ps)
  obtain name q where a: "a = (name, q)" by (cases a)
  show ?case
  proof (cases "grad q")
    case None
    with Cons a show ?thesis by simp
  next
    case (Some g)
    have "distinct (map fst (dict_set (label L p name) (tensor_norm L p g) acc))"
      using Cons.prems by (rule dict_set_distinct)
    from Cons.IH[OF this] a Some show ?thesis by simp
  qed
qed

lemma param_norms_key_set:
  "fst ` set (param_norms L p ps acc) =
     fst ` set acc \<union> label L p ` fst ` set (grad_bearing ps)"
proof (induction ps arbitrary: acc)
  case Nil
  then show ?case by simp
next
  case (Cons a ps)
  obtain name q where a: "a = (name, q)" by (cases a)
  show ?case
  proof (cases "grad q")
    case None
    with Cons a show ?thesis by simp
  next
    case (Some g)
    have "fst ` set (param_norms L p ps (dict_set (label L p name) (tensor_norm L p g) acc)) =
            insert (label L p name) (fst ` set acc) \<union> label L p ` fst ` set (grad_bearing ps)"
      by (simp only: Cons.IH dict_set_key_set)
    with a Some show ?thesis by simp
  qed
qed

lemma label_inject: "label L p a = label L p b \<longleftrightarrow> a = b"
  by (simp add: label_def)

lemma grad_bearing_names: "fst ` set (grad_bearing ps) \<subseteq> fst ` set ps"
proof (induction ps)
  case Nil
  then show ?case by simp
next
  case (Cons a ps)
  obtain name q where a: "a = (name, q)" by (cases a)
  from Cons a show ?case by (cases "grad q") auto
qed

lemma grad_bearing_distinct: "distinct (map fst ps) \<Longrightarrow> distinct (map fst (grad_bearing ps))"
proof (induction ps)
  case Nil
  then show ?case by simp
next
  case (Cons a ps)
  obtain name q where a: "a = (name, q)" by (cases a)
  have "name \<notin> fst ` set (grad_bearing ps)"
    using Cons.prems a grad_bearing_names[of ps] by auto
  with Cons a show ?case by (cases "grad q") auto
qed

lemma label_image_notin:
  "name \<notin> N \<Longrightarrow> label L p name \<notin> label L p ` N"
proof
  assume n: "name \<notin> N" and m: "label L p name \<in> label L p ` N"
  from m obtain n' where n': "n' \<in> N" and eq: "label L p name = label L p n'"
    by (rule imageE)
  from eq have "name = n'" by (simp only: label_inject)
  with n n' show False by simp
qed

lemma disjoint_insert_right: "A \<inter> B = {} \<Longrightarrow> x \<notin> A \<Longrightarrow> A \<inter> insert x B = {}"
  by blast

lemma param_norms_append:
  "distinct (map fst ps) \<Longrightarrow> label L p ` fst ` set (grad_bearing ps) \<inter> fst ` set acc = {} \<Longrightarrow>
   param_norms L p ps acc =
     acc @ map (\<lambda>(name, g). (label L p name, tensor_norm L p g)) (grad_bearing ps)"
proof (induction ps arbitrary: acc)
  case Nil
  then show ?case by simp
next
  case (Cons a ps)
  obtain name q where a: "a = (name, q)" by (cases a)
  have dps: "distinct (map fst ps)" using Cons.prems(1) by simp
  show ?case
  proof (cases "grad q")
    case None
    have gb: "grad_bearing (a # ps) = grad_bearing ps" using a None by simp
    have pn: "param_norms L p (a # ps) acc = param_norms L p ps acc" using a None by simp
    from Cons.prems(2) have "label L p ` fst ` set (grad_bearing ps) \<inter> fst ` set acc = {}"
      by (simp only: gb)
    from Cons.IH[OF dps this] show ?thesis by (simp only: gb pn)
  next
    case (Some g)
    let ?acc' = "dict_set (label L p name) (tensor_norm L p g) acc"
    have gb: "grad_bearing (a # ps) = (name, g) # grad_bearing ps" using a Some by simp
    have pn: "param_norms L p (a # ps) acc = param_norms L p ps ?acc'" using a Some by simp
    from Cons.prems(2)
    have disj: "insert (label L p name) (label L p ` fst ` set (grad_bearing ps)) \<inter> fst ` set acc = {}"
      by (simp add: gb)
    then have fresh: "label L p name \<notin> fst ` set acc" by blast
    from disj have sub: "label L p ` fst ` set (grad_bearing ps) \<inter> fst ` set acc = {}" by blast
    have "name \<notin> fst ` set ps" using Cons.prems(1) a by simp
    with grad_bearing_names[of ps] have notin: "name \<notin> fst ` set (grad_bearing ps)" by blast
    then have notin': "label L p name \<notin> label L p ` fst ` set (grad_bearing ps)"
      by (rule label_image_notin)
    have "label L p ` fst ` set (grad_bearing ps) \<inter> fst ` set ?acc' = {}"
      unfolding dict_set_key_set using sub notin' by (rule disjoint_insert_right)
    from Cons.IH[OF dps this]
    have "param_norms L p ps ?acc' =
            ?acc' @ map (\<lambda>(name, g). (label L p name, tensor_norm L p g)) (grad_bearing ps)" .
    then show ?thesis by (simp add: pn gb dict_set_fresh[OF fresh])
  qed
qed

lemma param_norms_eq:
  "distinct (map fst ps) \<Longrightarrow>
   param_norms L p ps [] = map (\<lambda>(name, g). (label L p name, tensor_norm L p g)) (grad_bearing ps)"
  using param_norms_append[of ps L p "[]"] by simp

lemma param_norms_Nil_iff: "param_norms L p ps [] = [] \<longleftrightarrow> grad_bearing ps = []"
proof -
  have "fst ` set (param_norms L p ps []) = {} \<longleftrightarrow> fst ` set (grad_bearing ps) = {}"
    by (simp add: param_norms_key_set)
  then show ?thesis by simp
qed

lemma rounded_append:
  "distinct (map fst items) \<Longrightarrow> fst ` set items \<inter> fst ` set acc = {} \<Longrightarrow>
   rounded L items acc = acc @ map (\<lambda>(k, v). (k, round_ndigits L v 4)) items"
proof (induction items arbitrary: acc)
  case Nil
  then show ?case by simp
next
  case (Cons a items)
  obtain k v where a: "a = (k, v)" by (cases a)
  let ?acc' = "dict_set k (round_ndigits L v 4) acc"
  have fresh: "k \<notin> fst ` set acc" using Cons.prems(2) a by auto
  have d: "distinct (map fst items)" and k: "k \<notin> fst ` set items"
    using Cons.prems(1) a by auto
  have "fst ` set items \<inter> fst ` set acc = {}" using Cons.prems(2) by auto
  then have "fst ` set items \<inter> fst ` set ?acc' = {}"
    unfolding dict_set_key_set using k by (rule disjoint_insert_right)
  from Cons.IH[OF d this]
  have "rounded L items ?acc' = ?acc' @ map (\<lambda>(k, v). (k, round_ndigits L v 4)) items" .
  with a fresh show ?case by (simp add: dict_set_fresh)
qed

lemma rounded_eq:
  "distinct (map fst d) \<Longrightarrow> rounded L d [] = map (\<lambda>(k, v). (k, round_ndigits L v 4)) d"
  using rounded_append[of d "[]" L] by simp

lemma with_total_distinct:
  "distinct (map fst d) \<Longrightarrow> distinct (map fst (with_total L p d))"
  by (simp add: with_total_def Let_def dict_set_distinct)

text \<open>The report of a successful call, without the loops.\<close>

lemma grad_norm_report:
  assumes "py_float L norm_type = Inr p"
  shows "grad_norm L ps norm_type =
           Inr (if grad_bearing ps = [] then []
                else map (\<lambda>(k, v). (k, round_ndigits L v 4))
                       (with_total L p (param_norms L p ps [])))"
proof -
  have "distinct (map fst (with_total L p (param_norms L p ps [])))"
    by (simp add: with_total_distinct param_norms_distinct)
  then show ?thesis
    using assms by (simp add: grad_norm_def Let_def rounded_eq param_norms_Nil_iff)
qed

lemma grad_norm_error:
  "py_float L norm_type = Inl e \<Longrightarrow> grad_norm L ps norm_type = Inl e"
  by (simp add: grad_norm_def)

lemma grad_bearing_Nil:
  "(\<And>name q. (name, q) \<in> set ps \<Longrightarrow> grad q = None) \<Longrightarrow> grad_bearing ps = []"
proof (induction ps)
  case Nil
  then show ?case by simp
next
  case (Cons a ps)
  obtain name q where a: "a = (name, q)" by (cases a)
  have "grad q = None" using Cons.prems[of name q] a by simp
  moreover have "grad_bearing ps = []"
  proof (rule Cons.IH)
    fix n r assume "(n, r) \<in> set ps"
    then show "grad r = None" using Cons.prems[of n r] by simp
  qed
  ultimately show ?case using a by simp
qed

lemma param_norms_grads_of:
  "grads_of a = grads_of b \<Longrightarrow> param_norms L p a acc = param_norms L p b acc"
proof (induction a arbitrary: b acc)
  case Nil
  then show ?case by (simp add: grads_of_def)
next
  case (Cons x a)
  obtain name q where x: "x = (name, q)" by (cases x)
  from Cons.prems obtain y b' where b: "b = y # b'"
    by (cases b) (simp_all add: grads_of_def)
  obtain name' q' where y: "y = (name', q')" by (cases y)
  from Cons.prems b x y have eq: "name' = name" "grad q' = grad q" "grads_of a = grads_of b'"
    by (simp_all add: grads_of_def)
  from Cons.IH[OF eq(3)] have ih: "\<And>acc. param_norms L p a acc = param_norms L p b' acc" .
  show ?case by (cases "grad q") (simp_all add: b x y eq ih)
qed

lemma grad_norm_grads_of:
  assumes "grads_of a = grads_of b"
  shows "grad_norm L a norm_type = grad_norm L b norm_type"
proof -
  have "\<And>p. param_norms L p a [] = param_norms L p b []"
    using assms by (rule param_norms_grads_of)
  then show ?thesis by (simp only: grad_norm_def)
qed

lemma param_norms_fold:
  "param_norms L p ps acc =
     fold (\<lambda>(name, g). dict_set (label L p name) (tensor_norm L p g)) (grad_bearing ps) acc"
proof (induction ps arbitrary: acc)
  case Nil
  then show ?case by simp
next
  case (Cons a ps)
  obtain name q where a: "a = (name, q)" by (cases a)
  show ?case by (cases "grad q") (simp_all add: a Cons.IH)
qed

subsection \<open>The report\<close>

lemma map_of_rounded_items:
  "map_of (map (\<lambda>(k, v). (k, f v)) d) k = map_option f (map_of d k)"
  by (induction d) auto

lemma dict_get_dict_set_same: "dict_get (dict_set k v d) k = Some v"
  by (simp add: dict_get_def dict_set_map_of)

lemma param_norms_values:
  "distinct (map fst ps) \<Longrightarrow>
   dict_values (param_norms L p ps []) = map (\<lambda>(name, g). tensor_norm L p g) (grad_bearing ps)"
  by (simp add: param_norms_eq dict_values_def case_prod_unfold)

lemma total_entry:
  assumes "py_float L norm_type = Inr p"
    and "distinct (map fst ps)"
    and "grad_bearing ps \<noteq> []"
  shows "dict_get (with_total L p (param_norms L p ps [])) (total_label L p) =
           Some (tensor_norm L p (map (\<lambda>(name, g). tensor_norm L p g) (grad_bearing ps))) \<and>
         (\<exists>report. grad_norm L ps norm_type = Inr report \<and>
            dict_get report (total_label L p) =
              Some (round_ndigits L
                     (tensor_norm L p (map (\<lambda>(name, g). tensor_norm L p g) (grad_bearing ps))) 4))"
proof -
  let ?t = "tensor_norm L p (map (\<lambda>(name, g). tensor_norm L p g) (grad_bearing ps))"
  have stored: "dict_get (with_total L p (param_norms L p ps [])) (total_label L p) = Some ?t"
    by (simp add: with_total_def Let_def dict_get_dict_set_same param_norms_values[OF assms(2)])
  have rep: "grad_norm L ps norm_type =
      Inr (map (\<lambda>(k, v). (k, round_ndigits L v 4)) (with_total L p (param_norms L p ps [])))"
    using grad_norm_report[OF assms(1), of ps] assms(3) by simp
  have "dict_get (map (\<lambda>(k, v). (k, round_ndigits L v 4)) (with_total L p (param_norms L p ps [])))
          (total_label L p) = Some (round_ndigits L ?t 4)"
    using stored by (simp add: dict_get_def map_of_rounded_items)
  with stored rep show ?thesis by blast
qed

lemma with_total_key_set:
  "fst ` set (with_total L p d) = insert (total_label L p) (fst ` set d)"
  by (simp add: with_total_def Let_def dict_set_key_set)

lemma rounded_items_keys: "map fst (map (\<lambda>(k, v). (k, f v)) d) = map fst d"
  by (induction d) auto

lemma total_label_is_label: "total_label L p = label L p ''total''"
  by (simp add: label_def total_label_def)

lemma with_total_length_present:
  "total_label L p \<in> fst ` set d \<Longrightarrow> length (with_total L p d) = length d"
  by (simp add: with_total_def Let_def dict_set_length)

lemma with_total_fresh:
  "total_label L p \<notin> fst ` set d \<Longrightarrow>
   with_total L p d = d @ [(total_label L p, tensor_norm L p (dict_values d))]"
  by (simp add: with_total_def Let_def dict_set_fresh)

lemma report_without_collision:
  assumes "py_float L norm_type = Inr p"
    and "distinct (map fst ps)"
    and "grad_bearing ps \<noteq> []"
    and "''total'' \<notin> fst ` set (grad_bearing ps)"
  shows "grad_norm L ps norm_type =
           Inr (map (\<lambda>(name, g). (label L p name, round_ndigits L (tensor_norm L p g) 4))
                  (grad_bearing ps) @
                [(total_label L p,
                  round_ndigits L
                    (tensor_norm L p (map (\<lambda>(name, g). tensor_norm L p g) (grad_bearing ps))) 4)])"
proof -
  let ?norms = "param_norms L p ps []"
  have norms: "?norms = map (\<lambda>(name, g). (label L p name, tensor_norm L p g)) (grad_bearing ps)"
    using assms(2) by (rule param_norms_eq)
  have "fst ` set ?norms = label L p ` fst ` set (grad_bearing ps)"
    by (simp add: param_norms_key_set)
  moreover have "label L p ''total'' \<notin> label L p ` fst ` set (grad_bearing ps)"
    using assms(4) by (rule label_image_notin)
  ultimately have "total_label L p \<notin> fst ` set ?norms"
    by (simp add: total_label_is_label)
  then have wt: "with_total L p ?norms =
      ?norms @ [(total_label L p, tensor_norm L p (dict_values ?norms))]"
    by (rule with_total_fresh)
  have dv: "dict_values ?norms = map (\<lambda>(name, g). tensor_norm L p g) (grad_bearing ps)"
    using assms(2) by (rule param_norms_values)
  have items: "map (\<lambda>(k, v). (k, round_ndigits L v 4)) ?norms =
      map (\<lambda>(name, g). (label L p name, round_ndigits L (tensor_norm L p g) 4)) (grad_bearing ps)"
    unfolding norms by (simp add: case_prod_unfold)
  have "map (\<lambda>(k, v). (k, round_ndigits L v 4)) (with_total L p ?norms) =
      map (\<lambda>(k, v). (k, round_ndigits L v 4)) ?norms @
      [(total_label L p, round_ndigits L (tensor_norm L p (dict_values ?norms)) 4)]"
    unfolding wt by simp
  then have "map (\<lambda>(k, v). (k, round_ndigits L v 4)) (with_total L p ?norms) =
      map (\<lambda>(name, g). (label L p name, round_ndigits L (tensor_norm L p g) 4)) (grad_bearing ps) @
      [(total_label L p,
        round_ndigits L
          (tensor_norm L p (map (\<lambda>(name, g). tensor_norm L p g) (grad_bearing ps))) 4)]"
    by (simp only: items dv)
  with grad_norm_report[OF assms(1), of ps] assms(3) show ?thesis by simp
qed

lemma report_size_without_collision:
  assumes "py_float L norm_type = Inr p"
    and "distinct (map fst ps)"
    and "grad_bearing ps \<noteq> []"
    and "''total'' \<notin> fst ` set (grad_bearing ps)"
    and "grad_norm L ps norm_type = Inr report"
  shows "length report = length (grad_bearing ps) + 1"
  using report_without_collision[OF assms(1-4)] assms(5) by simp



subsection \<open>The store\<close>

lemma keeps_refl: "keeps h h"
  by (simp add: keeps_def)

lemma keeps_trans: "keeps h h' \<Longrightarrow> keeps h' h'' \<Longrightarrow> keeps h h''"
  by (auto simp: keeps_def)

lemma new_tensor_keeps: "keeps h (snd (new_tensor vs h))"
  by (simp add: new_tensor_def keeps_def)

lemma new_tensor_cell: "cells (snd (new_tensor vs h)) (fst (new_tensor vs h)) = vs"
  by (simp add: new_tensor_def)

lemma norm_item_keeps: "keeps h (snd (norm_item L p a h))"
  using new_tensor_keeps[of h "[tensor_norm L p (cells h a)]"]
  by (simp add: norm_item_def Let_def case_prod_unfold)

lemma norm_item_value: "fst (norm_item L p a h) = tensor_norm L p (cells h a)"
  by (simp add: norm_item_def Let_def case_prod_unfold)

lemma param_norms_exec_keeps: "keeps h (snd (param_norms_exec L p m norms h))"
proof (induction m arbitrary: norms h)
  case Nil
  then show ?case by (simp add: keeps_refl)
next
  case (Cons b m)
  obtain name a where b: "b = (name, a)" by (cases b)
  show ?case
  proof (cases "grad_attr h a")
    case None
    with b Cons.IH[of h norms] show ?thesis by simp
  next
    case (Some g)
    let ?h' = "snd (norm_item L p g h)"
    let ?x = "fst (norm_item L p g h)"
    have "keeps h ?h'" by (rule norm_item_keeps)
    moreover have "keeps ?h' (snd (param_norms_exec L p m (dict_set (label L p name) ?x norms) ?h'))"
      by (rule Cons.IH)
    ultimately have "keeps h (snd (param_norms_exec L p m (dict_set (label L p name) ?x norms) ?h'))"
      by (rule keeps_trans)
    with b Some show ?thesis by (simp add: case_prod_unfold Let_def)
  qed
qed

lemma grad_norm_exec_keeps: "keeps h (snd (grad_norm_exec L m norm_type h))"
proof (cases "py_float L norm_type")
  case (Inl e)
  then show ?thesis by (simp add: grad_norm_exec_def keeps_refl)
next
  case (Inr p)
  let ?r = "param_norms_exec L p m [] h"
  let ?h1 = "snd ?r"
  let ?norms = "fst ?r"
  have k1: "keeps h ?h1" by (rule param_norms_exec_keeps)
  show ?thesis
  proof (cases "?norms = []")
    case True
    with Inr k1 show ?thesis by (simp add: grad_norm_exec_def case_prod_unfold Let_def)
  next
    case False
    let ?h2 = "snd (new_tensor (dict_values ?norms) ?h1)"
    let ?t = "fst (new_tensor (dict_values ?norms) ?h1)"
    let ?h3 = "snd (norm_item L p ?t ?h2)"
    have "keeps ?h1 ?h2" by (rule new_tensor_keeps)
    moreover have "keeps ?h2 ?h3" by (rule norm_item_keeps)
    ultimately have "keeps h ?h3" using k1 by (blast intro: keeps_trans)
    with Inr False show ?thesis by (simp add: grad_norm_exec_def case_prod_unfold Let_def)
  qed
qed

lemma keeps_view: "allocated h m \<Longrightarrow> keeps h h' \<Longrightarrow> view h' m = view h m"
proof (induction m)
  case Nil
  then show ?case by (simp add: view_def)
next
  case (Cons b m)
  obtain name a where b: "b = (name, a)" by (cases b)
  from Cons.prems(1) b have a: "a < next_free h" and
    g: "(case grad_attr h a of None \<Rightarrow> True | Some g \<Rightarrow> g < next_free h)" and
    rest: "allocated h m"
    by (simp_all add: allocated_def)
  from Cons.IH[OF rest Cons.prems(2)] have ih: "view h' m = view h m" .
  from a Cons.prems(2) have ca: "cells h' a = cells h a" "grad_attr h' a = grad_attr h a"
    by (simp_all add: keeps_def)
  have "map_option (cells h') (grad_attr h a) = map_option (cells h) (grad_attr h a)"
  proof (cases "grad_attr h a")
    case None
    then show ?thesis by simp
  next
    case (Some g')
    with g have "g' < next_free h" by simp
    with Cons.prems(2) have "cells h' g' = cells h g'" by (simp add: keeps_def)
    with Some show ?thesis by simp
  qed
  with ca ih b show ?case by (simp add: view_def)
qed

lemma keeps_allocated: "allocated h m \<Longrightarrow> keeps h h' \<Longrightarrow> allocated h' m"
proof (induction m)
  case Nil
  then show ?case by (simp add: allocated_def)
next
  case (Cons b m)
  obtain name a where b: "b = (name, a)" by (cases b)
  from Cons.prems(1) b have a: "a < next_free h" and
    g: "(case grad_attr h a of None \<Rightarrow> True | Some g \<Rightarrow> g < next_free h)" and
    rest: "allocated h m"
    by (simp_all add: allocated_def)
  from Cons.IH[OF rest Cons.prems(2)] have ih: "allocated h' m" .
  from a Cons.prems(2) have ga: "grad_attr h' a = grad_attr h a" and le: "next_free h \<le> next_free h'"
    by (simp_all add: keeps_def)
  have "(case grad_attr h a of None \<Rightarrow> True | Some g \<Rightarrow> g < next_free h')"
    using g le by (cases "grad_attr h a") simp_all
  with a le ga ih b show ?case by (simp add: allocated_def)
qed

lemma param_norms_exec_report:
  "allocated h m \<Longrightarrow>
   fst (param_norms_exec L p m norms h) = param_norms L p (view h m) norms"
proof (induction m arbitrary: norms h)
  case Nil
  then show ?case by (simp add: view_def)
next
  case (Cons b m)
  obtain name a where b: "b = (name, a)" by (cases b)
  from Cons.prems b have rest: "allocated h m" by (simp add: allocated_def)
  show ?case
  proof (cases "grad_attr h a")
    case None
    with b Cons.IH[OF rest, of norms] show ?thesis by (simp add: view_def)
  next
    case (Some g)
    let ?h' = "snd (norm_item L p g h)"
    let ?x = "tensor_norm L p (cells h g)"
    have k: "keeps h ?h'" by (rule norm_item_keeps)
    have rest': "allocated ?h' m" using rest k by (rule keeps_allocated)
    have v: "view ?h' m = view h m" using rest k by (rule keeps_view)
    have ih: "fst (param_norms_exec L p m (dict_set (label L p name) ?x norms) ?h') =
            param_norms L p (view ?h' m) (dict_set (label L p name) ?x norms)"
      using rest' by (rule Cons.IH)
    have step: "param_norms_exec L p (b # m) norms h =
            param_norms_exec L p m (dict_set (label L p name) ?x norms) ?h'"
      using b Some by (simp add: case_prod_unfold Let_def norm_item_value)
    have "view h (b # m) = (name, \<lparr>data = cells h a, grad = Some (cells h g)\<rparr>) # view h m"
      using b Some by (simp add: view_def)
    then have vstep: "param_norms L p (view h (b # m)) norms =
            param_norms L p (view h m) (dict_set (label L p name) ?x norms)"
      by simp
    show ?thesis by (simp only: step vstep ih v)
  qed
qed

lemma grad_norm_exec_report:
  assumes "allocated h m"
  shows "fst (grad_norm_exec L m norm_type h) = grad_norm L (view h m) norm_type"
proof (cases "py_float L norm_type")
  case (Inl e)
  then show ?thesis by (simp add: grad_norm_exec_def grad_norm_def)
next
  case (Inr p)
  let ?r = "param_norms_exec L p m [] h"
  let ?h1 = "snd ?r"
  have n: "fst ?r = param_norms L p (view h m) []" using assms by (rule param_norms_exec_report)
  let ?norms = "param_norms L p (view h m) []"
  show ?thesis
  proof (cases "?norms = []")
    case True
    with Inr n show ?thesis by (simp add: grad_norm_exec_def grad_norm_def case_prod_unfold Let_def)
  next
    case False
    let ?t = "fst (new_tensor (dict_values ?norms) ?h1)"
    let ?h2 = "snd (new_tensor (dict_values ?norms) ?h1)"
    have "fst (norm_item L p ?t ?h2) = tensor_norm L p (dict_values ?norms)"
      by (simp add: norm_item_value new_tensor_cell)
    with Inr n False show ?thesis
      by (simp add: grad_norm_exec_def grad_norm_def case_prod_unfold Let_def with_total_def)
  qed
qed

text \<open>
  The summary \<open>grad_norm_call\<close> of a call is what \<open>grad_norm_exec\<close> does, seen through
  \<open>view\<close>.
\<close>

lemma grad_norm_call_exec:
  assumes "allocated h m"
  shows "grad_norm_call L norm_type (view h m) =
           (fst (grad_norm_exec L m norm_type h), view (snd (grad_norm_exec L m norm_type h)) m)"
proof -
  have "keeps h (snd (grad_norm_exec L m norm_type h))" by (rule grad_norm_exec_keeps)
  with assms have "view (snd (grad_norm_exec L m norm_type h)) m = view h m" by (rule keeps_view)
  with grad_norm_exec_report[OF assms, of L norm_type] show ?thesis
    by (simp add: grad_norm_call_def)
qed

subsection \<open>The concrete operations\<close>subsection \<open>The concrete operations\<close>

lemma py_env_sel:
  "float_of_int py_env = py_float_of_int" "float_of_str py_env = py_float_of_str"
  "format_float py_env = py_repr" "tensor_norm py_env = py_norm" "round_ndigits py_env = py_round"
  by (simp_all add: py_env_def)











text \<open>The values of the specification's scenario with order 2.\<close>

lemma sqrt_25: "(25::real) powr (1 / 2) = 5"
proof -
  have "sqrt 25 = (5::real)" by (rule real_sqrt_unique) simp_all
  then show ?thesis by (simp add: powr_half_sqrt)
qed

lemma py_norm_2_examples:
  "py_norm (Fin 2) [Fin 3, Fin 4] = Fin 5"
  "py_norm (Fin 2) [Fin 0] = Fin 0"
  "py_norm (Fin 2) [Fin 5, Fin 0] = Fin 5"
  using sqrt_25 by (simp_all add: py_norm_def norm_pow_def has_inf_def abs_vals_def)

subsection \<open>The text of a float\<close>

























section \<open>The claims\<close>

text \<open>
  In what follows a module is the list \<open>ps\<close> that \<open>named_parameters()\<close> yields, its
  names are distinct where a statement says so, and \<open>p\<close> is the norm order after line 37.
\<close>

subsection \<open>C1: the total is the norm of the per-parameter norms\<close>

text \<open>
  C1. For a module with at least one gradient-bearing parameter and a norm order that
  converts to \<open>p\<close>, the value stored under the total label (line 45) is the norm of
  order \<open>p\<close> of the list of the per-parameter norms, each itself the norm of order \<open>p\<close>
  of one gradient; the gradients are not concatenated. The returned report holds that
  value under the total label after the rounding of line 46.
\<close>

theorem total_is_norm_of_parameter_norms:
  assumes "py_float L norm_type = Inr p"
    and "distinct (map fst ps)"
    and "grad_bearing ps \<noteq> []"
  shows "dict_get (with_total L p (param_norms L p ps [])) (total_label L p) =
           Some (tensor_norm L p (map (\<lambda>(name, g). tensor_norm L p g) (grad_bearing ps))) \<and>
         (\<exists>report. grad_norm L ps norm_type = Inr report \<and>
            dict_get report (total_label L p) =
              Some (round_ndigits L
                     (tensor_norm L p (map (\<lambda>(name, g). tensor_norm L p g) (grad_bearing ps))) 4))"
  using assms by (rule total_entry)

text \<open>
  At order \<open>0\<close>, which counts the non-zero values, the two readings differ: the gradients
  \<open>[1, 2]\<close> and \<open>[3]\<close> have the norms \<open>2\<close> and \<open>1\<close>, whose norm is \<open>2\<close>, while the three
  values together have the norm \<open>3\<close>.
\<close>

theorem total_is_norm_of_parameter_norms_witness:
  "py_float py_env (NInt 0) = Inr (Fin 0) \<and>
   distinct (map fst [(''a'', \<lparr>data = [Fin 0, Fin 0], grad = Some [Fin 1, Fin 2]\<rparr>),
                      (''b'', \<lparr>data = [Fin 0], grad = Some [Fin 3]\<rparr>)]) \<and>
   grad_bearing [(''a'', \<lparr>data = [Fin 0, Fin 0], grad = Some [Fin 1, Fin 2]\<rparr>),
                 (''b'', \<lparr>data = [Fin 0], grad = Some [Fin 3]\<rparr>)] \<noteq> [] \<and>
   dict_get (with_total py_env (Fin 0)
              (param_norms py_env (Fin 0)
                [(''a'', \<lparr>data = [Fin 0, Fin 0], grad = Some [Fin 1, Fin 2]\<rparr>),
                 (''b'', \<lparr>data = [Fin 0], grad = Some [Fin 3]\<rparr>)] []))
     (total_label py_env (Fin 0)) =
     Some (tensor_norm py_env (Fin 0) [tensor_norm py_env (Fin 0) [Fin 1, Fin 2],
                                       tensor_norm py_env (Fin 0) [Fin 3]]) \<and>
   tensor_norm py_env (Fin 0) [tensor_norm py_env (Fin 0) [Fin 1, Fin 2],
                               tensor_norm py_env (Fin 0) [Fin 3]] = Fin 2 \<and>
   tensor_norm py_env (Fin 0) ([Fin 1, Fin 2] @ [Fin 3]) = Fin 3 \<and>
   grad_norm py_env [(''a'', \<lparr>data = [Fin 0, Fin 0], grad = Some [Fin 1, Fin 2]\<rparr>),
                     (''b'', \<lparr>data = [Fin 0], grad = Some [Fin 3]\<rparr>)] (NInt 0) =
     Inr [(''grad_0.0_norm_a'', Fin 2), (''grad_0.0_norm_b'', Fin 1),
          (''grad_0.0_norm_total'', Fin 2)]"
proof -
  let ?ps = "[(''a'', \<lparr>data = [Fin 0, Fin 0], grad = Some [Fin 1, Fin 2]\<rparr>),
              (''b'', \<lparr>data = [Fin 0], grad = Some [Fin 3]\<rparr>)]"
  have h1: "py_float py_env (NInt 0) = Inr (Fin 0)" by code_simp
  have h2: "distinct (map fst ?ps)" by simp
  have h3: "grad_bearing ?ps \<noteq> []" by simp
  have e1: "tensor_norm py_env (Fin 0) [tensor_norm py_env (Fin 0) [Fin 1, Fin 2],
              tensor_norm py_env (Fin 0) [Fin 3]] = Fin 2" by code_simp
  have e2: "tensor_norm py_env (Fin 0) ([Fin 1, Fin 2] @ [Fin 3]) = Fin 3" by code_simp
  have e3: "grad_norm py_env ?ps (NInt 0) =
      Inr [(''grad_0.0_norm_a'', Fin 2), (''grad_0.0_norm_b'', Fin 1),
           (''grad_0.0_norm_total'', Fin 2)]" by code_simp
  from total_is_norm_of_parameter_norms[OF h1 h2 h3]
  have "dict_get (with_total py_env (Fin 0) (param_norms py_env (Fin 0) ?ps []))
          (total_label py_env (Fin 0)) =
        Some (tensor_norm py_env (Fin 0) [tensor_norm py_env (Fin 0) [Fin 1, Fin 2],
                                          tensor_norm py_env (Fin 0) [Fin 3]])"
    by simp
  with h1 h2 h3 e1 e2 e3 show ?thesis by (intro conjI)
qed

subsection \<open>C2: a norm order that does not convert\<close>




subsection \<open>C3: no gradient, empty report\<close>

text \<open>
  C3. When the norm order converts and no parameter of the module holds a gradient, the
  call returns the empty report: no entry for a parameter and no total entry.
\<close>

theorem no_gradient_gives_empty_report:
  assumes "py_float L norm_type = Inr p"
    and "\<And>name q. (name, q) \<in> set ps \<Longrightarrow> grad q = None"
  shows "grad_norm L ps norm_type = Inr []"
proof -
  have "grad_bearing ps = []" using assms(2) by (rule grad_bearing_Nil)
  with grad_norm_report[OF assms(1), of ps] show ?thesis by simp
qed

theorem no_gradient_gives_empty_report_witness:
  "py_float py_env (NInt 2) = Inr (Fin 2) \<and>
   grad (\<lparr>data = [Fin 1, Fin 2], grad = None\<rparr> :: pyfloat parameter) = None \<and>
   grad_norm py_env [(''w'', \<lparr>data = [Fin 1, Fin 2], grad = None\<rparr>)] (NInt 2) = Inr []"
proof -
  have h1: "py_float py_env (NInt 2) = Inr (Fin 2)" by code_simp
  have h2: "\<And>name q. (name, q) \<in> set [(''w'', \<lparr>data = [Fin 1, Fin 2], grad = None\<rparr>)] \<Longrightarrow>
              grad q = None"
    by simp
  have "grad_norm py_env [(''w'', \<lparr>data = [Fin 1, Fin 2], grad = None\<rparr>)] (NInt 2) = Inr []"
    using h1 h2 by (rule no_gradient_gives_empty_report)
  with h1 show ?thesis by simp
qed

subsection \<open>C4: the size of the report\<close>

text \<open>
  When the names are distinct and no gradient-bearing parameter is named \<open>total\<close>, the
  report has one entry for each gradient-bearing parameter and one total entry
  (\<open>report_size_without_collision\<close> above). The docstring promises "the dictionary of
  p-norms of each parameter's gradient and a special entry for the total p-norm" for
  every module, but a parameter named \<open>total\<close> has the label of the total entry, and
  line 45 stores the total over its norm.
\<close>

text \<open>
  C4. At the module with the gradient-bearing parameters \<open>total\<close> (gradient \<open>[1]\<close>) and
  \<open>bias\<close> (gradient \<open>[5]\<close>) and the order \<open>inf\<close>, the report has two entries, not
  three: the norm \<open>1\<close> of the parameter \<open>total\<close> is gone.
\<close>

theorem parameter_named_total_loses_its_entry:
  "length (grad_bearing [(''total'', \<lparr>data = [Fin 0], grad = Some [Fin 1]\<rparr>),
                         (''bias'', \<lparr>data = [Fin 0], grad = Some [Fin 5]\<rparr>)]) = 2 \<and>
   grad_norm py_env [(''total'', \<lparr>data = [Fin 0], grad = Some [Fin 1]\<rparr>),
                     (''bias'', \<lparr>data = [Fin 0], grad = Some [Fin 5]\<rparr>)] (NStr ''inf'') =
     Inr [(''grad_inf_norm_total'', Fin 5), (''grad_inf_norm_bias'', Fin 5)]"
  by code_simp

subsection \<open>C5: the values of the report\<close>




subsection \<open>C6: the labels\<close>

text \<open>
  C6. The labels of a returned report are \<^verbatim>\<open>grad_<p>_norm_<name>\<close> for the names of
  the gradient-bearing parameters, and \<^verbatim>\<open>grad_<p>_norm_total\<close> when there is at least
  one, where \<^verbatim>\<open><p>\<close> is the text of the norm order after its conversion to a float.
\<close>

theorem report_labels:
  assumes "py_float L norm_type = Inr p"
    and "grad_norm L ps norm_type = Inr report"
  shows "set (dict_keys report) =
           (if grad_bearing ps = [] then {}
            else {''grad_'' @ format_float L p @ ''_norm_'' @ name | name.
                    name \<in> fst ` set (grad_bearing ps)} \<union>
                 {''grad_'' @ format_float L p @ ''_norm_total''})"
proof (cases "grad_bearing ps = []")
  case True
  with grad_norm_report[OF assms(1), of ps] assms(2) show ?thesis
    by (simp add: dict_keys_def)
next
  case False
  with grad_norm_report[OF assms(1), of ps] assms(2)
  have "report = map (\<lambda>(k, v). (k, round_ndigits L v 4)) (with_total L p (param_norms L p ps []))"
    by simp
  then have "dict_keys report = map fst (with_total L p (param_norms L p ps []))"
    by (simp only: dict_keys_def rounded_items_keys)
  then have "set (dict_keys report) = fst ` set (with_total L p (param_norms L p ps []))"
    by simp
  then have "set (dict_keys report) =
      insert (total_label L p) (label L p ` fst ` set (grad_bearing ps))"
    by (simp add: with_total_key_set param_norms_key_set)
  moreover have "label L p ` fst ` set (grad_bearing ps) =
      {''grad_'' @ format_float L p @ ''_norm_'' @ name | name. name \<in> fst ` set (grad_bearing ps)}"
    unfolding label_def by blast
  ultimately show ?thesis using False by (simp add: total_label_def)
qed

text \<open>
  The specification's scenario: the gradients \<open>[3, 4]\<close> and \<open>[0]\<close> with the order given
  as the integer \<open>2\<close>, which the labels show as \<open>2.0\<close>.
\<close>

theorem report_labels_witness:
  "py_float py_env (NInt 2) = Inr (Fin 2) \<and>
   grad_norm py_env [(''p1'', \<lparr>data = [Fin 1, Fin 1], grad = Some [Fin 3, Fin 4]\<rparr>),
                     (''p2'', \<lparr>data = [Fin 1], grad = Some [Fin 0]\<rparr>)] (NInt 2) =
     Inr [(''grad_2.0_norm_p1'', Fin 5), (''grad_2.0_norm_p2'', Fin 0),
          (''grad_2.0_norm_total'', Fin 5)] \<and>
   set (dict_keys [(''grad_2.0_norm_p1'', Fin 5), (''grad_2.0_norm_p2'', Fin 0),
                   (''grad_2.0_norm_total'', Fin 5)]) =
     {''grad_2.0_norm_p1'', ''grad_2.0_norm_p2'', ''grad_2.0_norm_total''}"
proof -
  let ?ps = "[(''p1'', \<lparr>data = [Fin 1, Fin 1], grad = Some [Fin 3, Fin 4]\<rparr>),
              (''p2'', \<lparr>data = [Fin 1], grad = Some [Fin 0]\<rparr>)]"
  let ?report = "[(''grad_2.0_norm_p1'', Fin 5), (''grad_2.0_norm_p2'', Fin 0),
                  (''grad_2.0_norm_total'', Fin 5)]"
  have h1: "py_float py_env (NInt 2) = Inr (Fin 2)" by code_simp
  have fmt: "py_repr (Fin 2) = ''2.0''" by code_simp
  have rnd: "py_round (Fin 5) 4 = Fin 5" "py_round (Fin 0) 4 = Fin 0" by code_simp+
  have "grad_norm py_env ?ps (NInt 2) =
      Inr (map (\<lambda>(name, g). (label py_env (Fin 2) name,
                 round_ndigits py_env (tensor_norm py_env (Fin 2) g) 4)) (grad_bearing ?ps) @
           [(total_label py_env (Fin 2),
             round_ndigits py_env
               (tensor_norm py_env (Fin 2)
                 (map (\<lambda>(name, g). tensor_norm py_env (Fin 2) g) (grad_bearing ?ps))) 4)])"
    using h1 by (rule report_without_collision) simp_all
  then have h2: "grad_norm py_env ?ps (NInt 2) = Inr ?report"
    by (simp add: label_def total_label_def fmt py_env_sel py_norm_2_examples rnd)
  have "set (dict_keys ?report) =
      {''grad_'' @ format_float py_env (Fin 2) @ ''_norm_'' @ name | name.
         name \<in> fst ` set (grad_bearing ?ps)} \<union>
      {''grad_'' @ format_float py_env (Fin 2) @ ''_norm_total''}"
    using report_labels[OF h1 h2] by simp
  moreover have "set (dict_keys ?report) =
      {''grad_2.0_norm_p1'', ''grad_2.0_norm_p2'', ''grad_2.0_norm_total''}"
    by (simp add: dict_keys_def)
  ultimately show ?thesis using h1 h2 by simp
qed

subsection \<open>C7: a second call gives the same report\<close>

text \<open>
  C7. A call keeps nothing between calls and its report depends on the module only
  through the names and gradients of its parameters: a second call, on a state whose
  gradients are those the first call left, returns the report of the first call.
\<close>

theorem same_gradients_same_report:
  assumes "grads_of st2 = grads_of (snd (grad_norm_call L norm_type st1))"
  shows "fst (grad_norm_call L norm_type st2) = fst (grad_norm_call L norm_type st1)"
proof -
  from assms have "grads_of st2 = grads_of st1" by (simp add: grad_norm_call_def)
  then have "grad_norm L st2 norm_type = grad_norm L st1 norm_type" by (rule grad_norm_grads_of)
  then show ?thesis by (simp add: grad_norm_call_def)
qed

theorem same_gradients_same_report_witness:
  "grads_of [(''w'', \<lparr>data = [Fin 9, Fin 9], grad = Some [Fin 3, Fin (- 4)]\<rparr>)] =
     grads_of (snd (grad_norm_call py_env (NStr ''inf'')
        [(''w'', \<lparr>data = [Fin 1, Fin 1], grad = Some [Fin 3, Fin (- 4)]\<rparr>)])) \<and>
   fst (grad_norm_call py_env (NStr ''inf'')
          [(''w'', \<lparr>data = [Fin 9, Fin 9], grad = Some [Fin 3, Fin (- 4)]\<rparr>)]) =
     fst (grad_norm_call py_env (NStr ''inf'')
          [(''w'', \<lparr>data = [Fin 1, Fin 1], grad = Some [Fin 3, Fin (- 4)]\<rparr>)]) \<and>
   fst (grad_norm_call py_env (NStr ''inf'')
          [(''w'', \<lparr>data = [Fin 1, Fin 1], grad = Some [Fin 3, Fin (- 4)]\<rparr>)]) =
     Inr [(''grad_inf_norm_w'', Fin 4), (''grad_inf_norm_total'', Fin 4)]"
proof -
  let ?st1 = "[(''w'', \<lparr>data = [Fin 1, Fin 1], grad = Some [Fin 3, Fin (- 4)]\<rparr>)]"
  let ?st2 = "[(''w'', \<lparr>data = [Fin 9, Fin 9], grad = Some [Fin 3, Fin (- 4)]\<rparr>)]"
  have h: "grads_of ?st2 = grads_of (snd (grad_norm_call py_env (NStr ''inf'') ?st1))"
    by (simp add: grads_of_def grad_norm_call_def)
  have e: "fst (grad_norm_call py_env (NStr ''inf'') ?st1) =
      Inr [(''grad_inf_norm_w'', Fin 4), (''grad_inf_norm_total'', Fin 4)]"
    by code_simp
  from same_gradients_same_report[OF h] h e show ?thesis by (intro conjI)
qed

subsection \<open>C8: a call changes no tensor\<close>

text \<open>
  C8. A call on a module of the store leaves every parameter tensor and every gradient
  tensor of the module as it was, whether it returns a report or raises: what the store
  holds for the module after the call is what it held before. More generally, every
  tensor that exists before the call has after it the values and the gradient attribute
  it had; the call only adds tensors.
\<close>

theorem grad_norm_exec_changes_no_tensor:
  assumes "allocated h m"
  shows "view (snd (grad_norm_exec L m norm_type h)) m = view h m \<and>
         (\<forall>a. a < next_free h \<longrightarrow>
            cells (snd (grad_norm_exec L m norm_type h)) a = cells h a \<and>
            grad_attr (snd (grad_norm_exec L m norm_type h)) a = grad_attr h a)"
proof -
  have k: "keeps h (snd (grad_norm_exec L m norm_type h))" by (rule grad_norm_exec_keeps)
  with assms have "view (snd (grad_norm_exec L m norm_type h)) m = view h m" by (rule keeps_view)
  with k show ?thesis by (simp add: keeps_def)
qed

text \<open>
  On the example store, with the order \<open>inf\<close>: the call returns its report and
  allocates three tensors (the norm of the gradient, the tensor of the norms and its
  norm), and the parameter and its gradient are as before.
\<close>

theorem grad_norm_exec_changes_no_tensor_witness:
  "allocated example_store [(''w'', 0)] \<and>
   view example_store [(''w'', 0)] =
     [(''w'', \<lparr>data = [Fin 1, Fin 1], grad = Some [Fin 3, Fin (- 4)]\<rparr>)] \<and>
   fst (grad_norm_exec py_env [(''w'', 0)] (NStr ''inf'') example_store) =
     Inr [(''grad_inf_norm_w'', Fin 4), (''grad_inf_norm_total'', Fin 4)] \<and>
   next_free (snd (grad_norm_exec py_env [(''w'', 0)] (NStr ''inf'') example_store)) = 5 \<and>
   view (snd (grad_norm_exec py_env [(''w'', 0)] (NStr ''inf'') example_store)) [(''w'', 0)] =
     [(''w'', \<lparr>data = [Fin 1, Fin 1], grad = Some [Fin 3, Fin (- 4)]\<rparr>)] \<and>
   cells (snd (grad_norm_exec py_env [(''w'', 0)] (NStr ''inf'') example_store)) 1 =
     [Fin 3, Fin (- 4)] \<and>
   grad_attr (snd (grad_norm_exec py_env [(''w'', 0)] (NStr ''inf'') example_store)) 0 = Some 1"
proof -
  let ?after = "snd (grad_norm_exec py_env [(''w'', 0)] (NStr ''inf'') example_store)"
  have h: "allocated example_store [(''w'', 0)]" by code_simp
  have v: "view example_store [(''w'', 0)] =
      [(''w'', \<lparr>data = [Fin 1, Fin 1], grad = Some [Fin 3, Fin (- 4)]\<rparr>)]"
    by code_simp
  have r: "fst (grad_norm_exec py_env [(''w'', 0)] (NStr ''inf'') example_store) =
      Inr [(''grad_inf_norm_w'', Fin 4), (''grad_inf_norm_total'', Fin 4)]"
    by code_simp
  have n: "next_free ?after = 5" by code_simp
  have b: "(0::nat) < next_free example_store" "(1::nat) < next_free example_store"
    by (simp_all add: example_store_def)
  have c: "cells example_store 1 = [Fin 3, Fin (- 4)]" "grad_attr example_store 0 = Some 1"
    by (simp_all add: example_store_def)
  note inst = grad_norm_exec_changes_no_tensor[OF h, of py_env "NStr ''inf''"]
  from inst v have v': "view ?after [(''w'', 0)] =
      [(''w'', \<lparr>data = [Fin 1, Fin 1], grad = Some [Fin 3, Fin (- 4)]\<rparr>)]"
    by simp
  from inst b(2) c(1) have c1: "cells ?after 1 = [Fin 3, Fin (- 4)]" by simp
  from inst b(1) c(2) have c0: "grad_attr ?after 0 = Some 1" by simp
  from h v r n v' c1 c0 show ?thesis by (intro conjI)
qed

subsection \<open>C9: the infinity norm of one gradient\<close>

text \<open>
  C9. For a module whose only gradient-bearing parameter has the gradient
  \<open>[3, -7, 2]\<close>, and the norm order \<open>'inf'\<close>, the report gives \<open>7.0\<close> for the parameter
  and \<open>7.0\<close> for the total (one entry when the parameter is itself named \<open>total\<close>).
\<close>

theorem infinity_norm_scenario:
  assumes "grad_bearing ps = [(name, [Fin 3, Fin (- 7), Fin 2])]"
  shows "grad_norm py_env ps (NStr ''inf'') =
           Inr (if name = ''total'' then [(''grad_inf_norm_total'', Fin 7)]
                else [(''grad_inf_norm_'' @ name, Fin 7), (''grad_inf_norm_total'', Fin 7)])"
proof -
  have f1: "py_float py_env (NStr ''inf'') = Inr PInf" by code_simp
  have f2: "format_float py_env PInf = ''inf''" by code_simp
  have f3: "tensor_norm py_env PInf [Fin 3, Fin (- 7), Fin 2] = Fin 7" by code_simp
  have f4: "tensor_norm py_env PInf [Fin 7] = Fin 7" by code_simp
  have f5: "round_ndigits py_env (Fin 7) 4 = Fin 7" by code_simp
  have norms: "param_norms py_env PInf ps [] = [(''grad_inf_norm_'' @ name, Fin 7)]"
    by (simp add: param_norms_fold assms label_def f2 f3)
  have ne: "grad_bearing ps \<noteq> []" using assms by simp
  show ?thesis
    using grad_norm_report[OF f1, of ps] ne
    by (simp add: norms with_total_def Let_def total_label_def dict_values_def f2 f4 f5)
qed

theorem infinity_norm_scenario_witness:
  "grad_bearing [(''frozen'', \<lparr>data = [Fin 1], grad = None\<rparr>),
                 (''w'', \<lparr>data = [Fin 1, Fin 1, Fin 1], grad = Some [Fin 3, Fin (- 7), Fin 2]\<rparr>)] =
     [(''w'', [Fin 3, Fin (- 7), Fin 2])] \<and>
   grad_norm py_env [(''frozen'', \<lparr>data = [Fin 1], grad = None\<rparr>),
                     (''w'', \<lparr>data = [Fin 1, Fin 1, Fin 1], grad = Some [Fin 3, Fin (- 7), Fin 2]\<rparr>)]
     (NStr ''inf'') = Inr [(''grad_inf_norm_w'', Fin 7), (''grad_inf_norm_total'', Fin 7)]"
proof -
  let ?ps = "[(''frozen'', \<lparr>data = [Fin 1], grad = None\<rparr>),
              (''w'', \<lparr>data = [Fin 1, Fin 1, Fin 1], grad = Some [Fin 3, Fin (- 7), Fin 2]\<rparr>)]"
  have h: "grad_bearing ?ps = [(''w'', [Fin 3, Fin (- 7), Fin 2])]" by simp
  from infinity_norm_scenario[OF h] h show ?thesis by simp
qed

subsection \<open>C10: a parameter named \<open>total\<close>\<close>

text \<open>
  C10. When a gradient-bearing parameter is named \<open>total\<close>, its label is the total
  label; the comprehension stores its own norm there, line 45 stores the total norm over
  it, and the returned report has as many entries as there are gradient-bearing
  parameters.
\<close>

theorem total_name_collision:
  assumes "py_float L norm_type = Inr p"
    and "distinct (map fst ps)"
    and "(''total'', g) \<in> set (grad_bearing ps)"
  shows "label L p ''total'' = total_label L p \<and>
         dict_get (param_norms L p ps []) (label L p ''total'') = Some (tensor_norm L p g) \<and>
         (\<exists>report. grad_norm L ps norm_type = Inr report \<and>
            dict_get report (label L p ''total'') =
              Some (round_ndigits L
                     (tensor_norm L p (map (\<lambda>(name, g). tensor_norm L p g) (grad_bearing ps))) 4) \<and>
            length report = length (grad_bearing ps))"
proof -
  let ?norms = "param_norms L p ps []"
  let ?items = "map (\<lambda>(name, g). (label L p name, tensor_norm L p g)) (grad_bearing ps)"
  have ne: "grad_bearing ps \<noteq> []" using assms(3) by auto
  have norms: "?norms = ?items" using assms(2) by (rule param_norms_eq)
  have same: "label L p ''total'' = total_label L p" by (simp add: total_label_is_label)
  have mem: "(label L p ''total'', tensor_norm L p g) \<in> set ?norms"
    unfolding norms using assms(3) by force
  have "distinct (map fst ?norms)" by (simp add: param_norms_distinct)
  from map_of_is_SomeI[OF this mem]
  have own: "dict_get ?norms (label L p ''total'') = Some (tensor_norm L p g)"
    by (simp add: dict_get_def)
  from mem have "total_label L p \<in> fst ` set ?norms"
    unfolding same[symmetric] by (rule rev_image_eqI) simp
  then have len: "length (with_total L p ?norms) = length (grad_bearing ps)"
    by (simp add: with_total_length_present norms)
  from total_entry[OF assms(1) assms(2) ne] obtain report where
    r: "grad_norm L ps norm_type = Inr report" and
    t: "dict_get report (total_label L p) =
          Some (round_ndigits L
                 (tensor_norm L p (map (\<lambda>(name, g). tensor_norm L p g) (grad_bearing ps))) 4)"
    by blast
  from grad_norm_report[OF assms(1), of ps] ne r
  have "report = map (\<lambda>(k, v). (k, round_ndigits L v 4)) (with_total L p ?norms)" by simp
  with len have "length report = length (grad_bearing ps)" by simp
  with own same r t show ?thesis by simp
qed

theorem total_name_collision_witness:
  "py_float py_env (NStr ''inf'') = Inr PInf \<and>
   distinct (map fst [(''total'', \<lparr>data = [Fin 0], grad = Some [Fin 2]\<rparr>),
                      (''weight'', \<lparr>data = [Fin 0, Fin 0], grad = Some [Fin (- 6), Fin 1]\<rparr>)]) \<and>
   (''total'', [Fin 2]) \<in> set (grad_bearing
      [(''total'', \<lparr>data = [Fin 0], grad = Some [Fin 2]\<rparr>),
       (''weight'', \<lparr>data = [Fin 0, Fin 0], grad = Some [Fin (- 6), Fin 1]\<rparr>)]) \<and>
   label py_env PInf ''total'' = total_label py_env PInf \<and>
   dict_get (param_norms py_env PInf
      [(''total'', \<lparr>data = [Fin 0], grad = Some [Fin 2]\<rparr>),
       (''weight'', \<lparr>data = [Fin 0, Fin 0], grad = Some [Fin (- 6), Fin 1]\<rparr>)] [])
     (label py_env PInf ''total'') = Some (Fin 2) \<and>
   grad_norm py_env
      [(''total'', \<lparr>data = [Fin 0], grad = Some [Fin 2]\<rparr>),
       (''weight'', \<lparr>data = [Fin 0, Fin 0], grad = Some [Fin (- 6), Fin 1]\<rparr>)] (NStr ''inf'') =
     Inr [(''grad_inf_norm_total'', Fin 6), (''grad_inf_norm_weight'', Fin 6)]"
proof -
  let ?ps = "[(''total'', \<lparr>data = [Fin 0], grad = Some [Fin 2]\<rparr>),
              (''weight'', \<lparr>data = [Fin 0, Fin 0], grad = Some [Fin (- 6), Fin 1]\<rparr>)]"
  have h1: "py_float py_env (NStr ''inf'') = Inr PInf" by code_simp
  have h2: "distinct (map fst ?ps)" by simp
  have h3: "(''total'', [Fin 2]) \<in> set (grad_bearing ?ps)" by simp
  have e1: "tensor_norm py_env PInf [Fin 2] = Fin 2" by code_simp
  have e2: "grad_norm py_env ?ps (NStr ''inf'') =
      Inr [(''grad_inf_norm_total'', Fin 6), (''grad_inf_norm_weight'', Fin 6)]"
    by code_simp
  note c = total_name_collision[OF h1 h2 h3]
  have a: "label py_env PInf ''total'' = total_label py_env PInf"
    by (rule c[THEN conjunct1])
  have b: "dict_get (param_norms py_env PInf ?ps []) (label py_env PInf ''total'') = Some (Fin 2)"
    by (rule c[THEN conjunct2, THEN conjunct1, unfolded e1])
  from h1 h2 h3 a b e2 show ?thesis by (intro conjI)
qed

end
